theory Spec2Isabelle
  imports Complex_Main "HOL-Library.Word"
begin

unbundle bit_operations_syntax

section \<open>Data model\<close>

text \<open>
  Bytes are \<open>unsigned char\<close>, code points are \<open>char32_t\<close>/\<open>uint32_t\<close>, the
  code-page tables hold \<open>uint16_t\<close>.  A buffer (\<open>std::vector<unsigned char>\<close>, or a
  pointer with a length) is a list of bytes; \<open>std::u32string\<close> is a list of 32-bit words;
  the \<open>std::string\<close> holding UTF-8 output is a list of bytes.  Encoding names are the
  C strings of the source.
\<close>

type_synonym u8 = "8 word"
type_synonym u16 = "16 word"
type_synonym u32 = "32 word"

text \<open>\<open>struct BomInfo { const char* name; size_t size; }\<close>\<close>

record BomInfo =
  bom_name :: string
  bom_size :: nat

section \<open>BOM detection\<close>

text \<open>\<open>detect_bom\<close>: the five tests in the order of the source.\<close>

definition detect_bom :: "u8 list \<Rightarrow> BomInfo option" where
  "detect_bom b =
     (if length b \<ge> 3 \<and> b ! 0 = 0xEF \<and> b ! 1 = 0xBB \<and> b ! 2 = 0xBF
        then Some \<lparr>bom_name = ''UTF-8'', bom_size = 3\<rparr>
      else if length b \<ge> 2 \<and> b ! 0 = 0xFF \<and> b ! 1 = 0xFE
        then Some \<lparr>bom_name = ''UTF-16LE'', bom_size = 2\<rparr>
      else if length b \<ge> 2 \<and> b ! 0 = 0xFE \<and> b ! 1 = 0xFF
        then Some \<lparr>bom_name = ''UTF-16BE'', bom_size = 2\<rparr>
      else if length b \<ge> 4 \<and> b ! 0 = 0xFF \<and> b ! 1 = 0xFE \<and> b ! 2 = 0x00 \<and> b ! 3 = 0x00
        then Some \<lparr>bom_name = ''UTF-32LE'', bom_size = 4\<rparr>
      else if length b \<ge> 4 \<and> b ! 0 = 0x00 \<and> b ! 1 = 0x00 \<and> b ! 2 = 0xFE \<and> b ! 3 = 0xFF
        then Some \<lparr>bom_name = ''UTF-32BE'', bom_size = 4\<rparr>
      else None)"

section \<open>UTF-8 validation and encoding\<close>

text \<open>
  Lines 51--55 of \<open>is_valid_utf8\<close>: the number \<open>extra\<close> of continuation bytes a lead
  byte \<open>c > 0x7F\<close> announces; \<open>None\<close> where the source returns \<open>false\<close>.
\<close>

definition utf8_extra :: "u8 \<Rightarrow> nat option" where
  "utf8_extra c =
     (if c AND 0xE0 = 0xC0 then (if c < 0xC2 then None else Some 1)
      else if c AND 0xF0 = 0xE0 then Some 2
      else if c AND 0xF8 = 0xF0 then (if c > 0xF4 then None else Some 3)
      else None)"

text \<open>
  \<open>is_valid_utf8(s, n)\<close>.  The argument is the part of the span from index \<open>i\<close> on; one
  unfolding is one iteration of the \<open>while\<close> loop.  With \<open>c = s[i]\<close> and \<open>r\<close> the bytes
  after it, \<open>i + extra >= n\<close> is \<open>length r < extra\<close>, \<open>s[i+j]\<close> for \<open>1 \<le> j \<le> extra\<close> are the
  bytes \<open>take extra r\<close>, and \<open>s[i+1]\<close> is \<open>r ! 0\<close>.
\<close>

function is_valid_utf8 :: "u8 list \<Rightarrow> bool" where
  "is_valid_utf8 [] = True"
| "is_valid_utf8 (c # r) =
     (if c \<le> 0x7F then is_valid_utf8 r
      else case utf8_extra c of
        None \<Rightarrow> False
      | Some extra \<Rightarrow>
          if length r < extra then False
          else if \<not> list_all (\<lambda>b. b AND 0xC0 = 0x80) (take extra r) then False
          else if extra = 2 \<and> ((c = 0xE0 \<and> r ! 0 < 0xA0) \<or> (c = 0xED \<and> r ! 0 \<ge> 0xA0)) then False
          else if extra = 3 \<and> ((c = 0xF0 \<and> r ! 0 < 0x90) \<or> (c = 0xF4 \<and> r ! 0 \<ge> 0x90)) then False
          else is_valid_utf8 (drop extra r))"
  by pat_completeness auto
termination
  by (relation "measure length") auto

text \<open>
  \<open>append_utf8(out, cp)\<close>: \<open>static_cast<char>\<close> of a 32-bit value keeps its low 8 bits.
\<close>

definition append_utf8 :: "u8 list \<Rightarrow> u32 \<Rightarrow> u8 list" where
  "append_utf8 out cp =
     (if cp \<le> 0x7F then out @ [ucast cp]
      else if cp \<le> 0x7FF then
        out @ [ucast (0xC0 OR drop_bit 6 cp),
               ucast (0x80 OR (cp AND 0x3F))]
      else if cp \<le> 0xFFFF then
        out @ [ucast (0xE0 OR drop_bit 12 cp),
               ucast (0x80 OR (drop_bit 6 cp AND 0x3F)),
               ucast (0x80 OR (cp AND 0x3F))]
      else
        out @ [ucast (0xF0 OR drop_bit 18 cp),
               ucast (0x80 OR (drop_bit 12 cp AND 0x3F)),
               ucast (0x80 OR (drop_bit 6 cp AND 0x3F)),
               ucast (0x80 OR (cp AND 0x3F))])"

text \<open>\<open>u32_to_utf8\<close>: \<open>for (uint32_t cp : u32) append_utf8(out, cp)\<close>.\<close>

definition u32_to_utf8 :: "u32 list \<Rightarrow> u8 list" where
  "u32_to_utf8 u32 = foldl append_utf8 [] u32"

section \<open>Heuristics for UTF-16/32 without BOM\<close>

text \<open>
  The counting loops \<open>for (i = 0; i + 1 < b.size(); i += 2)\<close> and
  \<open>for (i = 0; i + 3 < b.size(); i += 4)\<close> walk the complete 2-byte and 4-byte units of
  the buffer.  The counters are \<open>size_t\<close>; they are bounded by the buffer length, so
  they are natural numbers here.
\<close>

fun zeros_odd :: "u8 list \<Rightarrow> nat" where
  "zeros_odd (b0 # b1 # rest) = (if b1 = 0 then 1 else 0) + zeros_odd rest"
| "zeros_odd _ = 0"

fun zeros_even :: "u8 list \<Rightarrow> nat" where
  "zeros_even (b0 # b1 # rest) = (if b0 = 0 then 1 else 0) + zeros_even rest"
| "zeros_even _ = 0"

definition looks_like_utf16_le :: "u8 list \<Rightarrow> bool" where
  "looks_like_utf16_le b =
     (if length b < 6 then False
      else zeros_odd b > zeros_even b * 3 \<and> zeros_odd b > length b div 8)"

definition looks_like_utf16_be :: "u8 list \<Rightarrow> bool" where
  "looks_like_utf16_be b =
     (if length b < 6 then False
      else zeros_even b > zeros_odd b * 3 \<and> zeros_even b > length b div 8)"

fun zero_cnt_le :: "u8 list \<Rightarrow> nat" where
  "zero_cnt_le (b0 # b1 # b2 # b3 # rest) =
     (if b1 = 0 \<and> b2 = 0 \<and> b3 = 0 then 1 else 0) + zero_cnt_le rest"
| "zero_cnt_le _ = 0"

fun zero_cnt_be :: "u8 list \<Rightarrow> nat" where
  "zero_cnt_be (b0 # b1 # b2 # b3 # rest) =
     (if b0 = 0 \<and> b1 = 0 \<and> b2 = 0 then 1 else 0) + zero_cnt_be rest"
| "zero_cnt_be _ = 0"

definition looks_like_utf32_le :: "u8 list \<Rightarrow> bool" where
  "looks_like_utf32_le b =
     (if length b < 8 then False else zero_cnt_le b > length b div 16)"

definition looks_like_utf32_be :: "u8 list \<Rightarrow> bool" where
  "looks_like_utf32_be b =
     (if length b < 8 then False else zero_cnt_be b > length b div 16)"

section \<open>Single-byte decoding tables\<close>

text \<open>The four tables of the source, entry \<open>k\<close> for the byte \<open>0x80 + k\<close>.\<close>

definition CP1251_TABLE :: "u16 list" where
  "CP1251_TABLE =
    [0x0402, 0x0403, 0x201A, 0x0453, 0x201E, 0x2026, 0x2020, 0x2021,
     0x20AC, 0x2030, 0x0409, 0x2039, 0x040A, 0x040C, 0x040B, 0x040F,
     0x0452, 0x2018, 0x2019, 0x201C, 0x201D, 0x2022, 0x2013, 0x2014,
     0x0000, 0x2122, 0x0459, 0x203A, 0x045A, 0x045C, 0x045B, 0x045F,
     0x00A0, 0x040E, 0x045E, 0x0408, 0x00A4, 0x0490, 0x00A6, 0x00A7,
     0x0401, 0x00A9, 0x0404, 0x00AB, 0x00AC, 0x00AD, 0x00AE, 0x0407,
     0x00B0, 0x00B1, 0x0406, 0x0456, 0x0491, 0x00B5, 0x00B6, 0x00B7,
     0x0451, 0x2116, 0x0454, 0x00BB, 0x0458, 0x0405, 0x0455, 0x0457,
     0x0410, 0x0411, 0x0412, 0x0413, 0x0414, 0x0415, 0x0416, 0x0417,
     0x0418, 0x0419, 0x041A, 0x041B, 0x041C, 0x041D, 0x041E, 0x041F,
     0x0420, 0x0421, 0x0422, 0x0423, 0x0424, 0x0425, 0x0426, 0x0427,
     0x0428, 0x0429, 0x042A, 0x042B, 0x042C, 0x042D, 0x042E, 0x042F,
     0x0430, 0x0431, 0x0432, 0x0433, 0x0434, 0x0435, 0x0436, 0x0437,
     0x0438, 0x0439, 0x043A, 0x043B, 0x043C, 0x043D, 0x043E, 0x043F,
     0x0440, 0x0441, 0x0442, 0x0443, 0x0444, 0x0445, 0x0446, 0x0447,
     0x0448, 0x0449, 0x044A, 0x044B, 0x044C, 0x044D, 0x044E, 0x044F]"

definition KOI8R_TABLE :: "u16 list" where
  "KOI8R_TABLE =
    [0x2500, 0x2502, 0x250C, 0x2510, 0x2514, 0x2518, 0x251C, 0x2524,
     0x252C, 0x2534, 0x253C, 0x2580, 0x2584, 0x2588, 0x258C, 0x2590,
     0x2591, 0x2592, 0x2593, 0x2320, 0x25A0, 0x2219, 0x221A, 0x2248,
     0x2264, 0x2265, 0x00A0, 0x2321, 0x00B0, 0x00B2, 0x00B7, 0x00F7,
     0x2550, 0x2551, 0x2552, 0x0451, 0x2553, 0x2554, 0x2555, 0x2556,
     0x2557, 0x2558, 0x2559, 0x255A, 0x255B, 0x255C, 0x255D, 0x255E,
     0x255F, 0x2560, 0x2561, 0x0401, 0x2562, 0x2563, 0x2564, 0x2565,
     0x2566, 0x2567, 0x2568, 0x2569, 0x256A, 0x256B, 0x256C, 0x00A9,
     0x044E, 0x0430, 0x0431, 0x0446, 0x0434, 0x0435, 0x0444, 0x0433,
     0x0445, 0x0438, 0x0439, 0x043A, 0x043B, 0x043C, 0x043D, 0x043E,
     0x043F, 0x044F, 0x0440, 0x0441, 0x0442, 0x0443, 0x0436, 0x0432,
     0x044C, 0x044B, 0x0437, 0x0448, 0x044D, 0x0449, 0x0447, 0x044A,
     0x042E, 0x0410, 0x0411, 0x0426, 0x0414, 0x0415, 0x0424, 0x0413,
     0x0425, 0x0418, 0x0419, 0x041A, 0x041B, 0x041C, 0x041D, 0x041E,
     0x041F, 0x042F, 0x0420, 0x0421, 0x0422, 0x0423, 0x0416, 0x0412,
     0x042C, 0x042B, 0x0417, 0x0428, 0x042D, 0x0429, 0x0427, 0x042A]"

definition ISO8859_5_TABLE :: "u16 list" where
  "ISO8859_5_TABLE =
    [0x0080, 0x0081, 0x0082, 0x0083, 0x0084, 0x0085, 0x0086, 0x0087,
     0x0088, 0x0089, 0x008A, 0x008B, 0x008C, 0x008D, 0x008E, 0x008F,
     0x0090, 0x0091, 0x0092, 0x0093, 0x0094, 0x0095, 0x0096, 0x0097,
     0x0098, 0x0099, 0x009A, 0x009B, 0x009C, 0x009D, 0x009E, 0x009F,
     0x00A0, 0x0401, 0x0402, 0x0403, 0x0404, 0x0405, 0x0406, 0x0407,
     0x0408, 0x0409, 0x040A, 0x040B, 0x040C, 0x00AD, 0x040E, 0x040F,
     0x0410, 0x0411, 0x0412, 0x0413, 0x0414, 0x0415, 0x0416, 0x0417,
     0x0418, 0x0419, 0x041A, 0x041B, 0x041C, 0x041D, 0x041E, 0x041F,
     0x0420, 0x0421, 0x0422, 0x0423, 0x0424, 0x0425, 0x0426, 0x0427,
     0x0428, 0x0429, 0x042A, 0x042B, 0x042C, 0x042D, 0x042E, 0x042F,
     0x0430, 0x0431, 0x0432, 0x0433, 0x0434, 0x0435, 0x0436, 0x0437,
     0x0438, 0x0439, 0x043A, 0x043B, 0x043C, 0x043D, 0x043E, 0x043F,
     0x0440, 0x0441, 0x0442, 0x0443, 0x0444, 0x0445, 0x0446, 0x0447,
     0x0448, 0x0449, 0x044A, 0x044B, 0x044C, 0x044D, 0x044E, 0x044F,
     0x2116, 0x0451, 0x0452, 0x0453, 0x0454, 0x0455, 0x0456, 0x0457,
     0x0458, 0x0459, 0x045A, 0x045B, 0x045C, 0x00A7, 0x045E, 0x045F]"

definition MACCYR_TABLE :: "u16 list" where
  "MACCYR_TABLE =
    [0x0410, 0x0411, 0x0412, 0x0413, 0x0414, 0x0415, 0x0416, 0x0417,
     0x0418, 0x0419, 0x041A, 0x041B, 0x041C, 0x041D, 0x041E, 0x041F,
     0x0420, 0x0421, 0x0422, 0x0423, 0x0424, 0x0425, 0x0426, 0x0427,
     0x0428, 0x0429, 0x042A, 0x042B, 0x042C, 0x042D, 0x042E, 0x042F,
     0x2020, 0x00B0, 0x0490, 0x00A3, 0x00A7, 0x2022, 0x00B6, 0x0406,
     0x00AE, 0x00A9, 0x2122, 0x0402, 0x0452, 0x2260, 0x0403, 0x0453,
     0x221E, 0x00B1, 0x2264, 0x2265, 0x00A5, 0x0491, 0x0408, 0x0404,
     0x0407, 0x0409, 0x040A, 0x040C, 0x0459, 0x045A, 0x045C, 0x045B,
     0x045F, 0x00A4, 0x00AB, 0x00BB, 0x2591, 0x2592, 0x2593, 0x2502,
     0x2524, 0x00A0, 0x044E, 0x0430, 0x0431, 0x0446, 0x0434, 0x0435,
     0x0444, 0x0433, 0x0445, 0x0438, 0x0439, 0x043A, 0x043B, 0x043C,
     0x043D, 0x043E, 0x043F, 0x044F, 0x0440, 0x0441, 0x0442, 0x0443,
     0x0436, 0x0432, 0x044C, 0x044B, 0x0437, 0x0448, 0x044D, 0x0449,
     0x0447, 0x044A, 0x042E, 0x0410, 0x0411, 0x0426, 0x0414, 0x0415,
     0x0424, 0x0413, 0x0425, 0x0418, 0x0419, 0x041A, 0x041B, 0x041C,
     0x041D, 0x041E, 0x041F, 0x042F, 0x0420, 0x0421, 0x0422, 0x0423]"

section \<open>Decoders\<close>

datatype SingleByte = CP1251 | KOI8R | ISO8859_5 | MACCYR

text \<open>
  \<open>decode_utf16(p, n, be)\<close>.  \<open>unit16 be x y\<close> is the 16-bit unit read from two
  consecutive bytes \<open>x = p[i]\<close>, \<open>y = p[i+1]\<close>.  \<open>decode_utf16_loop\<close> is the \<open>for\<close> loop on
  the bytes from index \<open>i\<close> on, after the trailing odd byte was dropped; the length is
  then even, so \<open>i + 3 >= n\<close> holds exactly when fewer than two bytes follow the unit.
  In the mismatch branch the source runs \<open>i += 2; continue\<close>, and the loop header adds 2
  again: both units are left behind.
\<close>

definition unit16 :: "bool \<Rightarrow> u8 \<Rightarrow> u8 \<Rightarrow> u16" where
  "unit16 be x y =
     (if be then push_bit 8 (ucast x) OR ucast y else push_bit 8 (ucast y) OR ucast x)"

fun decode_utf16_loop :: "bool \<Rightarrow> u8 list \<Rightarrow> u32 list" where
  "decode_utf16_loop be (p0 # p1 # rest) =
     (let u = unit16 be p0 p1 in
      if u \<ge> 0xD800 \<and> u \<le> 0xDBFF then
        (case rest of
           p2 # p3 # rest' \<Rightarrow>
             (let v = unit16 be p2 p3 in
              if v < 0xDC00 \<or> v > 0xDFFF then 0xFFFD # decode_utf16_loop be rest'
              else (0x10000 + (push_bit 10 (ucast u - 0xD800) OR (ucast v - 0xDC00)))
                     # decode_utf16_loop be rest')
         | _ \<Rightarrow> [0xFFFD])
      else if u \<ge> 0xDC00 \<and> u \<le> 0xDFFF then 0xFFFD # decode_utf16_loop be rest
      else ucast u # decode_utf16_loop be rest)"
| "decode_utf16_loop be _ = []"

definition decode_utf16 :: "u8 list \<Rightarrow> bool \<Rightarrow> u32 list" where
  "decode_utf16 p be = decode_utf16_loop be (take (length p - length p mod 2) p)"

text \<open>\<open>decode_utf32(p, n, be)\<close>, in the same way.\<close>

definition unit32 :: "bool \<Rightarrow> u8 \<Rightarrow> u8 \<Rightarrow> u8 \<Rightarrow> u8 \<Rightarrow> u32" where
  "unit32 be x0 x1 x2 x3 =
     (if be then push_bit 24 (ucast x0) OR push_bit 16 (ucast x1) OR push_bit 8 (ucast x2) OR ucast x3
      else push_bit 24 (ucast x3) OR push_bit 16 (ucast x2) OR push_bit 8 (ucast x1) OR ucast x0)"

fun decode_utf32_loop :: "bool \<Rightarrow> u8 list \<Rightarrow> u32 list" where
  "decode_utf32_loop be (p0 # p1 # p2 # p3 # rest) =
     (let cp = unit32 be p0 p1 p2 p3 in
      (if cp > 0x10FFFF \<or> (cp \<ge> 0xD800 \<and> cp \<le> 0xDFFF) then 0xFFFD else cp)
        # decode_utf32_loop be rest)"
| "decode_utf32_loop be _ = []"

definition decode_utf32 :: "u8 list \<Rightarrow> bool \<Rightarrow> u32 list" where
  "decode_utf32 p be = decode_utf32_loop be (take (length p - length p mod 4) p)"

text \<open>
  \<open>decode_single_byte(p, n, t)\<close>.  The table index \<open>b - 0x80\<close> is below 128 since
  \<open>b \<ge> 0x80\<close> in that branch.
\<close>

fun decode_single_byte :: "u8 list \<Rightarrow> SingleByte \<Rightarrow> u32 list" where
  "decode_single_byte [] t = []"
| "decode_single_byte (b # p) t =
     (if b < 0x80 then ucast b
      else
        (let cp = (case t of
                     CP1251 \<Rightarrow> CP1251_TABLE ! unat (b - 0x80)
                   | KOI8R \<Rightarrow> KOI8R_TABLE ! unat (b - 0x80)
                   | ISO8859_5 \<Rightarrow> ISO8859_5_TABLE ! unat (b - 0x80)
                   | MACCYR \<Rightarrow> MACCYR_TABLE ! unat (b - 0x80));
             cp = (if cp = 0x0000 then 0xFFFD else cp)
         in ucast cp))
     # decode_single_byte p t"

section \<open>Scoring\<close>

text \<open>
  \<open>score_u32_text\<close>.  \<open>score_loop\<close> is the \<open>for\<close> loop with its three counters
  \<open>(cyr, good, bad)\<close>, each test followed by \<open>continue\<close> as in the source.  The counters
  are \<open>size_t\<close> values bounded by three times the length of the text, hence natural
  numbers.  The source computes the score in \<open>double\<close>; the counters and the length are
  integers far below \<open>2^53\<close>, so the conversions, the product with 1.5, the difference and
  the sum are exact, and the score is the rounding of the quotient below.  The model takes
  the quotient itself, a real number.
\<close>

fun score_loop :: "u32 list \<Rightarrow> nat \<times> nat \<times> nat \<Rightarrow> nat \<times> nat \<times> nat" where
  "score_loop [] (cyr, good, bad) = (cyr, good, bad)"
| "score_loop (cp # u) (cyr, good, bad) =
     (if cp = 0x0000 then score_loop u (cyr, good, bad + 3)
      else if cp < 0x20 \<and> cp \<noteq> 0x09 \<and> cp \<noteq> 0x0A \<and> cp \<noteq> 0x0D then score_loop u (cyr, good, bad + 2)
      else if cp \<ge> 0x0400 \<and> cp \<le> 0x04FF then score_loop u (cyr + 1, good + 1, bad)
      else if (cp \<ge> 0x0020 \<and> cp \<le> 0x007E) \<or> cp = 0x00A0 \<or> cp = 0x2116 then score_loop u (cyr, good + 1, bad)
      else if cp = 0xFFFD then score_loop u (cyr, good, bad + 2)
      else if (cp \<ge> 0x2000 \<and> cp \<le> 0x206F) \<or> (cp \<ge> 0x20 \<and> cp \<le> 0x7E) then score_loop u (cyr, good + 1, bad)
      else score_loop u (cyr, good, bad))"

definition score_u32_text :: "u32 list \<Rightarrow> real" where
  "score_u32_text u =
     (if u = [] then 0.0
      else
        (let total = length u;
             (cyr, good, bad) = score_loop u (0, 0, 0);
             score = real good - real bad + 1.5 * real cyr
         in score / real total))"

section \<open>Detection and conversion\<close>

text \<open>
  \<open>DetectEncodingFromBuffer\<close>.  \<open>cands\<close> is the candidate array of the source and
  \<open>best_cand\<close> one iteration of the loop over it, on the pair \<open>(bestScore, bestName)\<close>.
\<close>

definition cands :: "(string \<times> SingleByte) list" where
  "cands = [(''WINDOWS-1251'', CP1251), (''KOI8-R'', KOI8R),
            (''ISO-8859-5'', ISO8859_5), (''MACCYRILLIC'', MACCYR)]"

definition best_cand :: "u8 list \<Rightarrow> real \<times> string \<Rightarrow> string \<times> SingleByte \<Rightarrow> real \<times> string" where
  "best_cand bytes best c =
     (let u = decode_single_byte bytes (snd c);
          s = score_u32_text u
      in if s > fst best then (s, fst c) else best)"

definition DetectEncodingFromBuffer :: "u8 list \<Rightarrow> string" where
  "DetectEncodingFromBuffer bytes =
     (if bytes = [] then ''UTF-8''
      else case detect_bom bytes of
        Some bom \<Rightarrow> bom_name bom
      | None \<Rightarrow>
          if looks_like_utf32_le bytes then ''UTF-32LE''
          else if looks_like_utf32_be bytes then ''UTF-32BE''
          else if looks_like_utf16_le bytes then ''UTF-16LE''
          else if looks_like_utf16_be bytes then ''UTF-16BE''
          else if is_valid_utf8 bytes then ''UTF-8''
          else snd (foldl (best_cand bytes) (- 1000000000, ''WINDOWS-1251'') cands))"

text \<open>
  \<open>ConvertBufferToUtf8(bytes, detected_out)\<close>: the result is the pair of the name stored
  through \<open>detected_out\<close> and the returned string.
\<close>

definition ConvertBufferToUtf8 :: "u8 list \<Rightarrow> string \<times> u8 list" where
  "ConvertBufferToUtf8 bytes =
     (if bytes = [] then (''UTF-8'', [])
      else
        (let bom = detect_bom bytes;
             (encname, off) = (case bom of
                                 Some bi \<Rightarrow> (bom_name bi, bom_size bi)
                               | None \<Rightarrow> (DetectEncodingFromBuffer bytes, 0));
             p = drop off bytes
         in
           if encname = ''UTF-8'' then
             (if \<not> is_valid_utf8 p
                then (''WINDOWS-1251'', u32_to_utf8 (decode_single_byte p CP1251))
              else (encname, p))
           else if encname = ''UTF-16LE'' then (encname, u32_to_utf8 (decode_utf16 p False))
           else if encname = ''UTF-16BE'' then (encname, u32_to_utf8 (decode_utf16 p True))
           else if encname = ''UTF-32LE'' then (encname, u32_to_utf8 (decode_utf32 p False))
           else if encname = ''UTF-32BE'' then (encname, u32_to_utf8 (decode_utf32 p True))
           else if encname = ''WINDOWS-1251'' then (encname, u32_to_utf8 (decode_single_byte p CP1251))
           else if encname = ''KOI8-R'' then (encname, u32_to_utf8 (decode_single_byte p KOI8R))
           else if encname = ''ISO-8859-5'' then (encname, u32_to_utf8 (decode_single_byte p ISO8859_5))
           else if encname = ''MACCYRILLIC'' then (encname, u32_to_utf8 (decode_single_byte p MACCYR))
           else (''WINDOWS-1251'', u32_to_utf8 (decode_single_byte p CP1251))))"

section \<open>In-place conversion\<close>

text \<open>
  \<open>ConvertFileToUtf8Inplace\<close> works on the file system through \<open>std::ifstream\<close>,
  \<open>std::ofstream\<close>, \<open>fs::rename\<close> and \<open>fs::remove\<close>.  The file system is a map from paths
  to contents, together with the list of the \<open>rename\<close> and \<open>remove\<close> calls made so far.
  Whether a call succeeds is decided by the platform, not by the program: \<open>fs_env\<close>
  gives the outcome of each call site.  A call that fails sets its \<open>std::error_code\<close>
  and leaves the files as they are.
\<close>

type_synonym path = string

datatype fs_op = Rename path path | Remove path

record fs_state =
  files :: "path \<rightharpoonup> u8 list"
  calls :: "fs_op list"

record fs_env =
  open_tmp_ok :: bool
  write_tmp_ok :: "nat option"
  rename1_ok :: bool
  remove_orig_ok :: bool
  rename2_ok :: bool
  remove_tmp_ok :: bool

text \<open>The \<open>std::runtime_error\<close>s thrown, by message.\<close>

datatype error =
    CannotOpenFile path
  | CannotOpenTempFile path
  | WriteFailedForTempFile path
  | FailedToReplaceFile path

text \<open>
  \<open>fs::rename(src, dst, ec)\<close> and \<open>fs::remove(p, ec)\<close>: the result is \<open>ec\<close> read as a
  truth value (\<open>True\<close>: an error) and the new state.
\<close>

definition fs_rename :: "bool \<Rightarrow> path \<Rightarrow> path \<Rightarrow> fs_state \<Rightarrow> bool \<times> fs_state" where
  "fs_rename ok src dst s =
     (if ok \<and> files s src \<noteq> None
        then (False, \<lparr>files = (files s)(dst := files s src, src := None),
                      calls = calls s @ [Rename src dst]\<rparr>)
      else (True, s\<lparr>calls := calls s @ [Rename src dst]\<rparr>))"

definition fs_remove :: "bool \<Rightarrow> path \<Rightarrow> fs_state \<Rightarrow> bool \<times> fs_state" where
  "fs_remove ok p s =
     (if ok
        then (False, \<lparr>files = (files s)(p := None), calls = calls s @ [Remove p]\<rparr>)
      else (True, s\<lparr>calls := calls s @ [Remove p]\<rparr>))"

text \<open>
  \<open>ConvertFileToUtf8Inplace(path, detected_out)\<close>.  \<open>read_file_bytes\<close> throws when the
  file cannot be opened.  Opening the temporary file truncates it; \<open>write_tmp_ok\<close> is
  \<open>None\<close> when the write and the flush succeed and \<open>Some k\<close> when they fail after \<open>k\<close>
  bytes reached the file.  The result is the thrown error or the detected name, and the
  file system as the call leaves it.
\<close>

definition ConvertFileToUtf8Inplace ::
  "fs_env \<Rightarrow> path \<Rightarrow> fs_state \<Rightarrow> (error + string) \<times> fs_state" where
  "ConvertFileToUtf8Inplace env path s =
     (let p = path; tmp = p @ ''.utf8.tmp'' in
      case files s path of
        None \<Rightarrow> (Inl (CannotOpenFile path), s)
      | Some bytes \<Rightarrow>
          (let (detected, utf8) = ConvertBufferToUtf8 bytes in
           if \<not> open_tmp_ok env then (Inl (CannotOpenTempFile tmp), s)
           else case write_tmp_ok env of
             Some k \<Rightarrow> (Inl (WriteFailedForTempFile tmp), s\<lparr>files := (files s)(tmp \<mapsto> take k utf8)\<rparr>)
           | None \<Rightarrow>
               (let s1 = s\<lparr>files := (files s)(tmp \<mapsto> utf8)\<rparr>;
                    (ec, s2) = fs_rename (rename1_ok env) tmp p s1
                in if ec then
                     (let (ec', s3) = fs_remove (remove_orig_ok env) p s2;
                          (ec, s4) = fs_rename (rename2_ok env) tmp p s3
                      in if ec then
                           (let (ec2, s5) = fs_remove (remove_tmp_ok env) tmp s4
                            in (Inl (FailedToReplaceFile p), s5))
                         else (Inr detected, s4))
                   else (Inr detected, s2))))"

section \<open>Reference definitions in the words of the specification\<close>

text \<open>
  The UTF-8 grammar of \<section>4.3: a span is well formed when it splits into code points, each
  a single byte \<open>\<le> 0x7F\<close>, or a lead byte \<open>110xxxxx\<close> (not \<open>0xC0\<close>/\<open>0xC1\<close>), \<open>1110xxxx\<close> or
  \<open>11110xxx\<close> (not above \<open>0xF4\<close>) followed by one, two or three continuation bytes
  \<open>10xxxxxx\<close>, with the bounds on the second byte after \<open>0xE0\<close>, \<open>0xED\<close>, \<open>0xF0\<close> and \<open>0xF4\<close>.
  A bit pattern is read as the value of the fixed leading bits.
\<close>

definition continuation_byte :: "u8 \<Rightarrow> bool" where
  "continuation_byte b \<longleftrightarrow> drop_bit 6 b = 0b10"

inductive well_formed_utf8 :: "u8 list \<Rightarrow> bool" where
  wf_empty: "well_formed_utf8 []"
| wf_single: "b \<le> 0x7F \<Longrightarrow> well_formed_utf8 r \<Longrightarrow> well_formed_utf8 (b # r)"
| wf_two: "drop_bit 5 l = 0b110 \<Longrightarrow> l \<noteq> 0xC0 \<Longrightarrow> l \<noteq> 0xC1 \<Longrightarrow>
     continuation_byte c1 \<Longrightarrow>
     well_formed_utf8 r \<Longrightarrow> well_formed_utf8 (l # c1 # r)"
| wf_three: "drop_bit 4 l = 0b1110 \<Longrightarrow>
     continuation_byte c1 \<Longrightarrow> continuation_byte c2 \<Longrightarrow>
     l \<noteq> 0xE0 \<or> c1 \<ge> 0xA0 \<Longrightarrow> l \<noteq> 0xED \<or> c1 < 0xA0 \<Longrightarrow>
     well_formed_utf8 r \<Longrightarrow> well_formed_utf8 (l # c1 # c2 # r)"
| wf_four: "drop_bit 3 l = 0b11110 \<Longrightarrow> l \<le> 0xF4 \<Longrightarrow>
     continuation_byte c1 \<Longrightarrow> continuation_byte c2 \<Longrightarrow> continuation_byte c3 \<Longrightarrow>
     l \<noteq> 0xF0 \<or> c1 \<ge> 0x90 \<Longrightarrow> l \<noteq> 0xF4 \<or> c1 < 0x90 \<Longrightarrow>
     well_formed_utf8 r \<Longrightarrow> well_formed_utf8 (l # c1 # c2 # c3 # r)"

code_pred well_formed_utf8 .

text \<open>
  The per-scalar contributions of \<section>4.6 to the three counters of the plausibility score.
\<close>

definition bad_contribution :: "u32 \<Rightarrow> nat" where
  "bad_contribution cp =
     (if cp = 0x0000 then 3
      else if cp < 0x20 \<and> cp \<noteq> 0x09 \<and> cp \<noteq> 0x0A \<and> cp \<noteq> 0x0D then 2
      else if cp = 0xFFFD then 2
      else 0)"

definition cyrillic_contribution :: "u32 \<Rightarrow> nat" where
  "cyrillic_contribution cp = (if 0x0400 \<le> cp \<and> cp \<le> 0x04FF then 1 else 0)"

definition good_contribution :: "u32 \<Rightarrow> nat" where
  "good_contribution cp =
     (if 0x0400 \<le> cp \<and> cp \<le> 0x04FF then 1
      else if (0x20 \<le> cp \<and> cp \<le> 0x7E) \<or> cp = 0x00A0 \<or> cp = 0x2116 then 1
      else if 0x2000 \<le> cp \<and> cp \<le> 0x206F then 1
      else 0)"

text \<open>
  The code-page table of each of the four single-byte encodings (\<section>3, CodePageTable).
\<close>

definition code_page :: "SingleByte \<Rightarrow> u16 list" where
  "code_page t =
     (case t of CP1251 \<Rightarrow> CP1251_TABLE | KOI8R \<Rightarrow> KOI8R_TABLE
              | ISO8859_5 \<Rightarrow> ISO8859_5_TABLE | MACCYR \<Rightarrow> MACCYR_TABLE)"


text \<open>
  The scalar carried by the bytes of one UTF-8 code point: the low five, four or three
  bits of the lead byte, then the low six bits of each continuation byte, most
  significant first.  The shortest UTF-8 form of a scalar is the first of the four forms
  whose 7, 11, 16 or 21 payload bits can hold it (the thresholds of \<section>4.5).
\<close>

fun utf8_value :: "u8 list \<Rightarrow> nat" where
  "utf8_value [b] = unat b"
| "utf8_value [l, c1] = (unat l mod 32) * 64 + unat c1 mod 64"
| "utf8_value [l, c1, c2] = (unat l mod 16) * 4096 + (unat c1 mod 64) * 64 + unat c2 mod 64"
| "utf8_value [l, c1, c2, c3] =
     (unat l mod 8) * 262144 + (unat c1 mod 64) * 4096 + (unat c2 mod 64) * 64 + unat c3 mod 64"
| "utf8_value _ = 0"


section \<open>BOM detection: the UTF-32LE mark\<close>

text \<open>
  C1.  The claim: a buffer that begins with \<open>FF FE 00 00\<close> is reported as UTF-32LE with
  prefix length 4, and \<open>detect\<close> returns UTF-32LE.  In the source the two-byte test for
  \<open>FF FE\<close> stands before the four-byte test, which is never reached: on every such
  buffer \<open>detect_bom\<close> reports UTF-16LE with prefix length 2, and so does the detection.
\<close>

theorem detect_bom_utf32le_shadowed:
  "detect_bom (0xFF # 0xFE # 0x00 # 0x00 # rest) = Some \<lparr>bom_name = ''UTF-16LE'', bom_size = 2\<rparr>
   \<and> DetectEncodingFromBuffer (0xFF # 0xFE # 0x00 # 0x00 # rest) = ''UTF-16LE''
   \<and> fst (ConvertBufferToUtf8 (0xFF # 0xFE # 0x00 # 0x00 # rest)) = ''UTF-16LE''"
  by (simp add: detect_bom_def DetectEncodingFromBuffer_def ConvertBufferToUtf8_def)

section \<open>The single-byte decoder\<close>

lemma decode_single_byte_map:
  "decode_single_byte p t =
     map (\<lambda>b. if b < 0x80 then ucast b
               else if code_page t ! unat (b - 0x80) = 0 then 0xFFFD
               else ucast (code_page t ! unat (b - 0x80))) p"
  by (induction p) (auto simp: code_page_def Let_def split: SingleByte.splits)

lemma ucast16_nonzero: "(x::u16) \<noteq> 0 \<Longrightarrow> (ucast x :: u32) \<noteq> 0"
proof
  assume nz: "x \<noteq> 0" and z: "(ucast x :: u32) = 0"
  have "unat (ucast x :: u32) = unat x"
    by (simp add: unsigned_ucast_eq take_bit_nat_eq_self less_trans[OF unsigned_less])
  with z have "unat x = 0" by simp
  with nz show False by (simp add: unat_eq_zero)
qed

text \<open>
  C8.  For every byte \<open>b\<close> and each of the four tables, the single-byte decoder emits
  \<open>b\<close> itself when \<open>b < 0x80\<close>, and otherwise the entry \<open>b - 0x80\<close> of the table, or
  \<open>0xFFFD\<close> when that entry is 0; it emits one scalar per byte, and never the scalar 0
  for a byte \<open>\<ge> 0x80\<close>.
\<close>

theorem decode_single_byte_table:
  "decode_single_byte p t =
     map (\<lambda>b. if b < 0x80 then ucast b
               else if code_page t ! unat (b - 0x80) = 0 then 0xFFFD
               else ucast (code_page t ! unat (b - 0x80))) p
   \<and> (\<forall>i < length p. p ! i \<ge> 0x80 \<longrightarrow> decode_single_byte p t ! i \<noteq> 0)"
proof
  show "decode_single_byte p t =
     map (\<lambda>b. if b < 0x80 then ucast b
               else if code_page t ! unat (b - 0x80) = 0 then 0xFFFD
               else ucast (code_page t ! unat (b - 0x80))) p"
    by (rule decode_single_byte_map)
  show "\<forall>i < length p. p ! i \<ge> 0x80 \<longrightarrow> decode_single_byte p t ! i \<noteq> 0"
    by (auto simp: decode_single_byte_map dest: ucast16_nonzero)
qed

theorem decode_single_byte_table_witness:
  "decode_single_byte [0x41, 0x98, 0xC0] CP1251 = [0x41, 0xFFFD, 0x0410]
   \<and> (1::nat) < length [0x41, 0x98, 0xC0 :: u8] \<and> [0x41, 0x98, 0xC0 :: u8] ! 1 \<ge> 0x80
   \<and> decode_single_byte [0x41, 0x98, 0xC0] CP1251 ! 1 \<noteq> 0"
  using decode_single_byte_table [of "[0x41, 0x98, 0xC0]" CP1251]
  by (simp add: code_page_def CP1251_TABLE_def)

section \<open>The plausibility score\<close>

lemma score_step:
  "score_loop (cp # u) (cyr, good, bad) =
     score_loop u (cyr + cyrillic_contribution cp, good + good_contribution cp,
                   bad + bad_contribution cp)"
proof -
  consider "cp = 0" | "cp \<noteq> 0" "cp < 0x20" "cp \<noteq> 9" "cp \<noteq> 0xA" "cp \<noteq> 0xD"
    | "cp \<noteq> 0" "\<not> (cp < 0x20 \<and> cp \<noteq> 9 \<and> cp \<noteq> 0xA \<and> cp \<noteq> 0xD)" by blast
  then show ?thesis
  proof cases
    case 1
    then show ?thesis
      by (simp add: cyrillic_contribution_def good_contribution_def bad_contribution_def)
  next
    case 2
    then have "\<not> 0x400 \<le> cp" "\<not> 0x20 \<le> cp" "\<not> 0x2000 \<le> cp"
        "cp \<noteq> 0xA0" "cp \<noteq> 0x2116" "cp \<noteq> 0xFFFD"
      by (auto simp: word_le_nat_alt word_less_nat_alt)
    with 2 show ?thesis
      by (simp add: cyrillic_contribution_def good_contribution_def bad_contribution_def)
  next
    case 3
    have a: "0x400 \<le> cp \<and> cp \<le> 0x4FF \<Longrightarrow> cp \<noteq> 0xFFFD \<and> \<not> cp < 0x20"
      by (auto simp: word_le_nat_alt word_less_nat_alt)
    have b: "(0x20 \<le> cp \<and> cp \<le> 0x7E) \<or> cp = 0xA0 \<or> cp = 0x2116 \<Longrightarrow> cp \<noteq> 0xFFFD"
      by (auto simp: word_le_nat_alt word_less_nat_alt)
    from 3 a b show ?thesis
      by (auto simp add: cyrillic_contribution_def good_contribution_def bad_contribution_def)
  qed
qed

lemma score_loop_sums:
  "score_loop u (cyr, good, bad) =
     (cyr + sum_list (map cyrillic_contribution u),
      good + sum_list (map good_contribution u),
      bad + sum_list (map bad_contribution u))"
proof (induction u arbitrary: cyr good bad)
  case Nil
  then show ?case by simp
next
  case (Cons cp u)
  show ?case
    unfolding score_step by (simp add: Cons.IH)
qed

lemma score_formula:
  "score_u32_text u =
     (real (sum_list (map good_contribution u)) - real (sum_list (map bad_contribution u))
        + 1.5 * real (sum_list (map cyrillic_contribution u))) / real (length u)"
  by (simp add: score_u32_text_def score_loop_sums)

text \<open>
  C5.  The score of a code-point sequence is \<open>(good - bad + 1.5 * cyrillic) / length\<close>,
  where the three counters are the sums of the per-scalar contributions of \<section>4.6
  (\<open>good_contribution\<close>, \<open>bad_contribution\<close>, \<open>cyrillic_contribution\<close>; a scalar in none
  of the listed classes contributes nothing), and the empty sequence scores 0.
\<close>

theorem score_u32_text_formula:
  "score_u32_text u =
     (if u = [] then 0
      else (real (sum_list (map good_contribution u))
              - real (sum_list (map bad_contribution u))
              + 1.5 * real (sum_list (map cyrillic_contribution u)))
           / real (length u))"
  by (simp add: score_formula)

lemma contribution_le:
  "real (good_contribution cp) - real (bad_contribution cp)
     + 1.5 * real (cyrillic_contribution cp) \<le> 2.5"
  by (simp add: cyrillic_contribution_def good_contribution_def bad_contribution_def)

lemma sum_contribution_le:
  "real (sum_list (map good_contribution u)) - real (sum_list (map bad_contribution u))
     + 1.5 * real (sum_list (map cyrillic_contribution u)) \<le> 2.5 * real (length u)"
proof (induction u)
  case Nil
  then show ?case by simp
next
  case (Cons cp u)
  from contribution_le[of cp] Cons show ?case by (simp add: algebra_simps)
qed

lemma cyrillic_sums:
  "list_all (\<lambda>cp. 0x0400 \<le> cp \<and> cp \<le> 0x04FF) t \<Longrightarrow>
     sum_list (map good_contribution t) = length t \<and>
     sum_list (map bad_contribution t) = 0 \<and>
     sum_list (map cyrillic_contribution t) = length t"
proof (induction t)
  case Nil
  then show ?case by simp
next
  case (Cons cp t)
  then have r: "0x0400 \<le> cp" "cp \<le> 0x04FF" by simp_all
  then have "cp \<noteq> 0" "\<not> cp < 0x20" "cp \<noteq> 0xFFFD"
    by (auto simp: word_le_nat_alt word_less_nat_alt)
  with r Cons show ?case
    by (simp add: cyrillic_contribution_def good_contribution_def bad_contribution_def)
qed

lemma quotient_mono:
  fixes X :: real
  assumes "X \<le> 2.5 * n" "0 < n" "0 \<le> k"
  shows "X / n \<le> (X + 2.5 * k) / (n + k)"
proof -
  have "X * k \<le> (2.5 * n) * k" using assms(1,3) by (rule mult_right_mono)
  then have "X * (n + k) \<le> (X + 2.5 * k) * n" by (simp add: algebra_simps)
  moreover have "0 < n + k" using assms by simp
  ultimately show ?thesis using assms(2) by (simp add: frac_le_eq field_simps)
qed

text \<open>
  C6.  For every sequence \<open>s\<close> and every non-empty sequence \<open>t\<close> of scalars in the
  Cyrillic block \<open>0x0400..0x04FF\<close>, the score of \<open>s\<close> with \<open>t\<close> appended is at least the
  score of \<open>s\<close>.  (No scalar contributes more than 2.5 to the numerator, and a Cyrillic
  scalar contributes exactly 2.5.)
\<close>

theorem score_append_cyrillic_mono:
  assumes "t \<noteq> []" and "list_all (\<lambda>cp. 0x0400 \<le> cp \<and> cp \<le> 0x04FF) t"
  shows "score_u32_text s \<le> score_u32_text (s @ t)"
proof -
  let ?X = "real (sum_list (map good_contribution s)) - real (sum_list (map bad_contribution s))
     + 1.5 * real (sum_list (map cyrillic_contribution s))"
  let ?n = "real (length s)" and ?k = "real (length t)"
  from cyrillic_sums[OF assms(2)]
  have g: "sum_list (map good_contribution t) = length t"
    and b: "sum_list (map bad_contribution t) = 0"
    and c: "sum_list (map cyrillic_contribution t) = length t" by blast+
  have app: "score_u32_text (s @ t) = (?X + 2.5 * ?k) / (?n + ?k)"
    unfolding score_formula map_append sum_list_append g b c
    by (simp add: algebra_simps)
  have "?X / ?n \<le> (?X + 2.5 * ?k) / (?n + ?k)"
  proof (cases "s = []")
    case True
    then show ?thesis by simp
  next
    case False
    then have n: "0 < ?n" by simp
    show ?thesis by (rule quotient_mono[OF sum_contribution_le n]) simp
  qed
  then show ?thesis unfolding app by (simp add: score_formula)
qed

theorem score_append_cyrillic_mono_witness:
  "[0x041F, 0x0440 :: u32] \<noteq> []
   \<and> list_all (\<lambda>cp. 0x0400 \<le> cp \<and> cp \<le> 0x04FF) [0x041F, 0x0440 :: u32]
   \<and> score_u32_text [0x41, 0xFFFD] \<le> score_u32_text ([0x41, 0xFFFD] @ [0x041F, 0x0440])"
proof -
  have t: "[0x041F, 0x0440 :: u32] \<noteq> []" by simp
  have c: "list_all (\<lambda>cp. 0x0400 \<le> cp \<and> cp \<le> 0x04FF) [0x041F, 0x0440 :: u32]" by simp
  from score_append_cyrillic_mono [OF t c, of "[0x41, 0xFFFD]"] t c show ?thesis by blast
qed

section \<open>Conversion of a buffer that begins with a BOM\<close>

text \<open>
  C2.  The claim: for a buffer that begins with a recognized BOM the conversion reports
  exactly the BOM's encoding name, also when a UTF-8 BOM is followed by bytes that are
  not valid UTF-8.  In the source the UTF-8 branch of \<open>ConvertBufferToUtf8\<close> validates the
  remainder whatever the origin of the name: on \<open>EF BB BF FF\<close> the BOM detector and
  \<open>DetectEncodingFromBuffer\<close> report UTF-8, while the conversion reports WINDOWS-1251
  and decodes the remainder with the Windows-1251 table.
\<close>

theorem convert_utf8_bom_reports_windows_1251:
  "detect_bom [0xEF, 0xBB, 0xBF, 0xFF] = Some \<lparr>bom_name = ''UTF-8'', bom_size = 3\<rparr>
   \<and> \<not> is_valid_utf8 [0xFF]
   \<and> DetectEncodingFromBuffer [0xEF, 0xBB, 0xBF, 0xFF] = ''UTF-8''
   \<and> ConvertBufferToUtf8 [0xEF, 0xBB, 0xBF, 0xFF] = (''WINDOWS-1251'', [0xD1, 0x8F])"
  by (simp add: detect_bom_def DetectEncodingFromBuffer_def ConvertBufferToUtf8_def
        utf8_extra_def u32_to_utf8_def append_utf8_def CP1251_TABLE_def)

section \<open>Surrogates in the UTF-16 decoder\<close>










section \<open>Valid UTF-8 without a BOM\<close>

text \<open>
  C4 as stated fails: the zero-byte heuristics run before the UTF-8 validation.  The
  eight bytes \<open>41 00 00 00 42 00 00 00\<close> are non-empty, carry no BOM and are valid UTF-8,
  yet they are detected as UTF-32LE and converted to the two bytes \<open>41 42\<close>.
\<close>

theorem valid_utf8_detected_utf32_counterexample:
  "[0x41, 0, 0, 0, 0x42, 0, 0, 0 :: u8] \<noteq> []
   \<and> detect_bom [0x41, 0, 0, 0, 0x42, 0, 0, 0] = None
   \<and> is_valid_utf8 [0x41, 0, 0, 0, 0x42, 0, 0, 0]
   \<and> DetectEncodingFromBuffer [0x41, 0, 0, 0, 0x42, 0, 0, 0] = ''UTF-32LE''
   \<and> ConvertBufferToUtf8 [0x41, 0, 0, 0, 0x42, 0, 0, 0] = (''UTF-32LE'', [0x41, 0x42])"
  by (simp add: detect_bom_def DetectEncodingFromBuffer_def ConvertBufferToUtf8_def
        looks_like_utf32_le_def decode_utf32_def unit32_def u32_to_utf8_def append_utf8_def)

text \<open>
  C4, amended.  For every non-empty buffer that has no BOM, matches none of the four
  wide-encoding heuristics of \<section>4.2 and is valid UTF-8, the detection returns UTF-8 and
  the conversion returns the buffer itself.
\<close>

theorem valid_utf8_identity:
  assumes "bytes \<noteq> []" and "detect_bom bytes = None"
    and "\<not> looks_like_utf32_le bytes" and "\<not> looks_like_utf32_be bytes"
    and "\<not> looks_like_utf16_le bytes" and "\<not> looks_like_utf16_be bytes"
    and "is_valid_utf8 bytes"
  shows "DetectEncodingFromBuffer bytes = ''UTF-8''
         \<and> ConvertBufferToUtf8 bytes = (''UTF-8'', bytes)"
  using assms by (simp add: DetectEncodingFromBuffer_def ConvertBufferToUtf8_def)

theorem valid_utf8_identity_witness:
  "[0x48, 0x69, 0x2C, 0x20, 0xD0, 0xBC, 0xD0, 0xB8, 0xD1, 0x80, 0x21, 0x0A :: u8] \<noteq> []
   \<and> detect_bom [0x48, 0x69, 0x2C, 0x20, 0xD0, 0xBC, 0xD0, 0xB8, 0xD1, 0x80, 0x21, 0x0A] = None
   \<and> \<not> looks_like_utf32_le [0x48, 0x69, 0x2C, 0x20, 0xD0, 0xBC, 0xD0, 0xB8, 0xD1, 0x80, 0x21, 0x0A]
   \<and> \<not> looks_like_utf32_be [0x48, 0x69, 0x2C, 0x20, 0xD0, 0xBC, 0xD0, 0xB8, 0xD1, 0x80, 0x21, 0x0A]
   \<and> \<not> looks_like_utf16_le [0x48, 0x69, 0x2C, 0x20, 0xD0, 0xBC, 0xD0, 0xB8, 0xD1, 0x80, 0x21, 0x0A]
   \<and> \<not> looks_like_utf16_be [0x48, 0x69, 0x2C, 0x20, 0xD0, 0xBC, 0xD0, 0xB8, 0xD1, 0x80, 0x21, 0x0A]
   \<and> is_valid_utf8 [0x48, 0x69, 0x2C, 0x20, 0xD0, 0xBC, 0xD0, 0xB8, 0xD1, 0x80, 0x21, 0x0A]
   \<and> DetectEncodingFromBuffer [0x48, 0x69, 0x2C, 0x20, 0xD0, 0xBC, 0xD0, 0xB8, 0xD1, 0x80, 0x21, 0x0A]
        = ''UTF-8''
   \<and> ConvertBufferToUtf8 [0x48, 0x69, 0x2C, 0x20, 0xD0, 0xBC, 0xD0, 0xB8, 0xD1, 0x80, 0x21, 0x0A]
        = (''UTF-8'', [0x48, 0x69, 0x2C, 0x20, 0xD0, 0xBC, 0xD0, 0xB8, 0xD1, 0x80, 0x21, 0x0A])"
proof -
  let ?b = "[0x48, 0x69, 0x2C, 0x20, 0xD0, 0xBC, 0xD0, 0xB8, 0xD1, 0x80, 0x21, 0x0A :: u8]"
  have h1: "?b \<noteq> []" by simp
  have h2: "detect_bom ?b = None" by (simp add: detect_bom_def)
  have h3: "\<not> looks_like_utf32_le ?b" by (simp add: looks_like_utf32_le_def)
  have h4: "\<not> looks_like_utf32_be ?b" by (simp add: looks_like_utf32_be_def)
  have h5: "\<not> looks_like_utf16_le ?b" by (simp add: looks_like_utf16_le_def)
  have h6: "\<not> looks_like_utf16_be ?b" by (simp add: looks_like_utf16_be_def)
  have h7: "is_valid_utf8 ?b" by (simp add: utf8_extra_def)
  from valid_utf8_identity [OF h1 h2 h3 h4 h5 h6 h7] h1 h2 h3 h4 h5 h6 h7
  show ?thesis by blast
qed

section \<open>Replacing a file in place\<close>

text \<open>
  C9 as stated fails where it says that no file remains at the target path once the
  retried rename has failed: \<open>fs::remove(p, ec)\<close> may fail as well, its error code is
  overwritten by the second \<open>fs::rename\<close>, and then the original file is still in place
  when the function throws.
\<close>

theorem replace_in_place_counterexample:
  "fst (ConvertFileToUtf8Inplace
        \<lparr>open_tmp_ok = True, write_tmp_ok = None, rename1_ok = False,
         remove_orig_ok = False, rename2_ok = False, remove_tmp_ok = True\<rparr>
        ''f'' \<lparr>files = [''f'' \<mapsto> [0xCF, 0xF0]], calls = []\<rparr>) = Inl (FailedToReplaceFile ''f'')
   \<and> calls (snd (ConvertFileToUtf8Inplace
        \<lparr>open_tmp_ok = True, write_tmp_ok = None, rename1_ok = False,
         remove_orig_ok = False, rename2_ok = False, remove_tmp_ok = True\<rparr>
        ''f'' \<lparr>files = [''f'' \<mapsto> [0xCF, 0xF0]], calls = []\<rparr>))
       = [Rename ''f.utf8.tmp'' ''f'', Remove ''f'', Rename ''f.utf8.tmp'' ''f'',
          Remove ''f.utf8.tmp'']
   \<and> files (snd (ConvertFileToUtf8Inplace
        \<lparr>open_tmp_ok = True, write_tmp_ok = None, rename1_ok = False,
         remove_orig_ok = False, rename2_ok = False, remove_tmp_ok = True\<rparr>
        ''f'' \<lparr>files = [''f'' \<mapsto> [0xCF, 0xF0]], calls = []\<rparr>)) ''f'' = Some [0xCF, 0xF0]"
  by (simp add: ConvertFileToUtf8Inplace_def fs_rename_def fs_remove_def Let_def split_beta)

text \<open>
  C9, amended.  Once the temporary file is written: when the first rename succeeds, it
  is the only file-system call, and no delete is attempted.  When it fails, a delete of
  the original is attempted, its outcome is ignored, and the rename is retried exactly
  once.  When the retry fails too, a delete of the temporary file is attempted and the
  operation throws; in that state no file remains at the target path if the delete of
  the original succeeded, and the original file is still there, unchanged, if it failed.
\<close>

theorem replace_in_place_protocol:
  assumes "files s path = Some bytes" and "open_tmp_ok env" and "write_tmp_ok env = None"
  shows
   "(rename1_ok env \<longrightarrow>
       fst (ConvertFileToUtf8Inplace env path s) = Inr (fst (ConvertBufferToUtf8 bytes))
     \<and> calls (snd (ConvertFileToUtf8Inplace env path s)) = calls s @ [Rename (path @ ''.utf8.tmp'') path]
     \<and> files (snd (ConvertFileToUtf8Inplace env path s)) path = Some (snd (ConvertBufferToUtf8 bytes))
     \<and> files (snd (ConvertFileToUtf8Inplace env path s)) (path @ ''.utf8.tmp'') = None)
  \<and> (\<not> rename1_ok env \<and> rename2_ok env \<longrightarrow>
       fst (ConvertFileToUtf8Inplace env path s) = Inr (fst (ConvertBufferToUtf8 bytes))
     \<and> calls (snd (ConvertFileToUtf8Inplace env path s))
          = calls s @ [Rename (path @ ''.utf8.tmp'') path, Remove path,
                       Rename (path @ ''.utf8.tmp'') path]
     \<and> files (snd (ConvertFileToUtf8Inplace env path s)) path = Some (snd (ConvertBufferToUtf8 bytes))
     \<and> files (snd (ConvertFileToUtf8Inplace env path s)) (path @ ''.utf8.tmp'') = None)
  \<and> (\<not> rename1_ok env \<and> \<not> rename2_ok env \<longrightarrow>
       fst (ConvertFileToUtf8Inplace env path s) = Inl (FailedToReplaceFile path)
     \<and> calls (snd (ConvertFileToUtf8Inplace env path s))
          = calls s @ [Rename (path @ ''.utf8.tmp'') path, Remove path,
                       Rename (path @ ''.utf8.tmp'') path, Remove (path @ ''.utf8.tmp'')]
     \<and> files (snd (ConvertFileToUtf8Inplace env path s)) path = (if remove_orig_ok env then None else Some bytes)
     \<and> files (snd (ConvertFileToUtf8Inplace env path s)) (path @ ''.utf8.tmp'')
          = (if remove_tmp_ok env then None else Some (snd (ConvertBufferToUtf8 bytes))))"
  using assms
  by (simp add: ConvertFileToUtf8Inplace_def fs_rename_def fs_remove_def Let_def split_beta)

theorem replace_in_place_protocol_witness:
  "files \<lparr>files = [''f'' \<mapsto> [0xCF, 0xF0]], calls = []\<rparr> ''f'' = Some [0xCF, 0xF0]
   \<and> open_tmp_ok \<lparr>open_tmp_ok = True, write_tmp_ok = None, rename1_ok = False,
         remove_orig_ok = True, rename2_ok = False, remove_tmp_ok = True\<rparr>
   \<and> write_tmp_ok \<lparr>open_tmp_ok = True, write_tmp_ok = None, rename1_ok = False,
         remove_orig_ok = True, rename2_ok = False, remove_tmp_ok = True\<rparr> = None
   \<and> \<not> rename1_ok \<lparr>open_tmp_ok = True, write_tmp_ok = None, rename1_ok = False,
         remove_orig_ok = True, rename2_ok = False, remove_tmp_ok = True\<rparr>
   \<and> \<not> rename2_ok \<lparr>open_tmp_ok = True, write_tmp_ok = None, rename1_ok = False,
         remove_orig_ok = True, rename2_ok = False, remove_tmp_ok = True\<rparr>
   \<and> fst (ConvertFileToUtf8Inplace
        \<lparr>open_tmp_ok = True, write_tmp_ok = None, rename1_ok = False,
         remove_orig_ok = True, rename2_ok = False, remove_tmp_ok = True\<rparr>
        ''f'' \<lparr>files = [''f'' \<mapsto> [0xCF, 0xF0]], calls = []\<rparr>) = Inl (FailedToReplaceFile ''f'')
   \<and> calls (snd (ConvertFileToUtf8Inplace
        \<lparr>open_tmp_ok = True, write_tmp_ok = None, rename1_ok = False,
         remove_orig_ok = True, rename2_ok = False, remove_tmp_ok = True\<rparr>
        ''f'' \<lparr>files = [''f'' \<mapsto> [0xCF, 0xF0]], calls = []\<rparr>))
       = [Rename ''f.utf8.tmp'' ''f'', Remove ''f'', Rename ''f.utf8.tmp'' ''f'',
          Remove ''f.utf8.tmp'']
   \<and> files (snd (ConvertFileToUtf8Inplace
        \<lparr>open_tmp_ok = True, write_tmp_ok = None, rename1_ok = False,
         remove_orig_ok = True, rename2_ok = False, remove_tmp_ok = True\<rparr>
        ''f'' \<lparr>files = [''f'' \<mapsto> [0xCF, 0xF0]], calls = []\<rparr>)) ''f'' = None
   \<and> files (snd (ConvertFileToUtf8Inplace
        \<lparr>open_tmp_ok = True, write_tmp_ok = None, rename1_ok = False,
         remove_orig_ok = True, rename2_ok = False, remove_tmp_ok = True\<rparr>
        ''f'' \<lparr>files = [''f'' \<mapsto> [0xCF, 0xF0]], calls = []\<rparr>)) ''f.utf8.tmp'' = None"
  using replace_in_place_protocol
    [of "\<lparr>files = [''f'' \<mapsto> [0xCF, 0xF0]], calls = []\<rparr>" "''f''" "[0xCF, 0xF0]" "\<lparr>open_tmp_ok = True, write_tmp_ok = None, rename1_ok = False,
         remove_orig_ok = True, rename2_ok = False, remove_tmp_ok = True\<rparr>"]
  by simp

section \<open>The UTF-8 validator and the grammar\<close>

text \<open>
  Facts about single bytes are checked on all 256 values.
\<close>

lemma byte_cases: "\<exists>n\<in>set [0..<256]. (c::u8) = word_of_nat n"
proof -
  have "unat c < 256" using unsigned_less[of c] by simp
  moreover have "c = word_of_nat (unat c)" by simp
  ultimately show ?thesis by (metis atLeastLessThan_iff set_upt zero_le)
qed

lemma utf8_extra_enum:
  "\<forall>n\<in>set [0..<256].
     utf8_extra (word_of_nat n) =
       (if 0xC2 \<le> (word_of_nat n :: u8) \<and> (word_of_nat n :: u8) \<le> 0xDF then Some 1
        else if 0xE0 \<le> (word_of_nat n :: u8) \<and> (word_of_nat n :: u8) \<le> 0xEF then Some 2
        else if 0xF0 \<le> (word_of_nat n :: u8) \<and> (word_of_nat n :: u8) \<le> 0xF4 then Some 3
        else None)"
  by code_simp

lemma utf8_extra_ranges:
  "utf8_extra c =
       (if 0xC2 \<le> c \<and> c \<le> 0xDF then Some 1
        else if 0xE0 \<le> c \<and> c \<le> 0xEF then Some 2
        else if 0xF0 \<le> c \<and> c \<le> 0xF4 then Some 3
        else None)"
  using utf8_extra_enum byte_cases[of c] by blast

lemma byte_patterns_enum:
  "\<forall>n\<in>set [0..<256].
      ((word_of_nat n :: u8) AND 0xC0 = 0x80) = (drop_bit 6 (word_of_nat n :: u8) = 0b10)
    \<and> (drop_bit 6 (word_of_nat n :: u8) = 0b10) = (0x80 \<le> (word_of_nat n :: u8) \<and> (word_of_nat n :: u8) \<le> 0xBF)
    \<and> (drop_bit 5 (word_of_nat n :: u8) = 0b110) = (0xC0 \<le> (word_of_nat n :: u8) \<and> (word_of_nat n :: u8) \<le> 0xDF)
    \<and> (drop_bit 4 (word_of_nat n :: u8) = 0b1110) = (0xE0 \<le> (word_of_nat n :: u8) \<and> (word_of_nat n :: u8) \<le> 0xEF)
    \<and> (drop_bit 3 (word_of_nat n :: u8) = 0b11110) = (0xF0 \<le> (word_of_nat n :: u8) \<and> (word_of_nat n :: u8) \<le> 0xF7)"
  by code_simp

lemma continuation_mask: "((c::u8) AND 0xC0 = 0x80) = continuation_byte c"
  unfolding continuation_byte_def using byte_patterns_enum byte_cases[of c] by blast

lemma continuation_range: "continuation_byte c = (0x80 \<le> c \<and> c \<le> 0xBF)"
  unfolding continuation_byte_def using byte_patterns_enum byte_cases[of c] by blast

lemma lead2_pattern: "(drop_bit 5 (c::u8) = 0b110) = (0xC0 \<le> c \<and> c \<le> 0xDF)"
  using byte_patterns_enum byte_cases[of c] by blast

lemma lead3_pattern: "(drop_bit 4 (c::u8) = 0b1110) = (0xE0 \<le> c \<and> c \<le> 0xEF)"
  using byte_patterns_enum byte_cases[of c] by blast

lemma lead4_pattern: "(drop_bit 3 (c::u8) = 0b11110) = (0xF0 \<le> c \<and> c \<le> 0xF7)"
  using byte_patterns_enum byte_cases[of c] by blast

lemma is_valid_utf8_two:
  assumes "0xC2 \<le> l" "l \<le> 0xDF"
  shows "is_valid_utf8 (l # c1 # r) = (continuation_byte c1 \<and> is_valid_utf8 r)"
proof -
  from assms have "\<not> l \<le> 0x7F" by (simp add: word_le_nat_alt)
  with assms show ?thesis by (simp add: utf8_extra_ranges continuation_mask)
qed

lemma is_valid_utf8_three:
  assumes "0xE0 \<le> l" "l \<le> 0xEF"
  shows "is_valid_utf8 (l # c1 # c2 # r) =
     (continuation_byte c1 \<and> continuation_byte c2 \<and> (l \<noteq> 0xE0 \<or> c1 \<ge> 0xA0) \<and> (l \<noteq> 0xED \<or> c1 < 0xA0)
        \<and> is_valid_utf8 r)"
proof -
  from assms have "\<not> l \<le> 0x7F" "\<not> l \<le> 0xDF" by (simp_all add: word_le_nat_alt)
  with assms show ?thesis by (auto simp add: utf8_extra_ranges continuation_mask)
qed

lemma is_valid_utf8_four:
  assumes "0xF0 \<le> l" "l \<le> 0xF4"
  shows "is_valid_utf8 (l # c1 # c2 # c3 # r) =
     (continuation_byte c1 \<and> continuation_byte c2 \<and> continuation_byte c3
        \<and> (l \<noteq> 0xF0 \<or> c1 \<ge> 0x90) \<and> (l \<noteq> 0xF4 \<or> c1 < 0x90)
        \<and> is_valid_utf8 r)"
proof -
  from assms have "\<not> l \<le> 0x7F" "\<not> l \<le> 0xDF" "\<not> l \<le> 0xEF" by (simp_all add: word_le_nat_alt)
  with assms show ?thesis by (auto simp add: utf8_extra_ranges continuation_mask)
qed

lemma lead2_range: "0xC0 \<le> l \<and> l \<le> 0xDF \<and> l \<noteq> 0xC0 \<and> l \<noteq> 0xC1 \<longleftrightarrow> 0xC2 \<le> l \<and> l \<le> (0xDF::u8)"
  by (auto simp: word_le_nat_alt word_unat_eq_iff)

lemma lead4_range: "0xF0 \<le> l \<and> l \<le> 0xF7 \<and> l \<le> 0xF4 \<longleftrightarrow> 0xF0 \<le> l \<and> l \<le> (0xF4::u8)"
  by (auto simp: word_le_nat_alt)

lemma well_formed_imp_valid: "well_formed_utf8 bs \<Longrightarrow> is_valid_utf8 bs"
proof (induction rule: well_formed_utf8.induct)
  case wf_empty
  show ?case by simp
next
  case (wf_single b r)
  then show ?case by simp
next
  case (wf_two l c1 r)
  then have "0xC2 \<le> l \<and> l \<le> 0xDF" using lead2_range[of l] by (simp add: lead2_pattern)
  then have "is_valid_utf8 (l # c1 # r) = (continuation_byte c1 \<and> is_valid_utf8 r)"
    by (intro is_valid_utf8_two) simp_all
  with wf_two show ?case by (simp del: is_valid_utf8.simps)
next
  case (wf_three l c1 c2 r)
  then have "0xE0 \<le> l \<and> l \<le> 0xEF" by (simp add: lead3_pattern)
  then have "is_valid_utf8 (l # c1 # c2 # r) =
     (continuation_byte c1 \<and> continuation_byte c2 \<and> (l \<noteq> 0xE0 \<or> c1 \<ge> 0xA0) \<and> (l \<noteq> 0xED \<or> c1 < 0xA0)
        \<and> is_valid_utf8 r)"
    by (intro is_valid_utf8_three) simp_all
  with wf_three show ?case by (simp del: is_valid_utf8.simps)
next
  case (wf_four l c1 c2 c3 r)
  then have "0xF0 \<le> l \<and> l \<le> 0xF4" by (simp add: lead4_pattern)
  then have "is_valid_utf8 (l # c1 # c2 # c3 # r) =
     (continuation_byte c1 \<and> continuation_byte c2 \<and> continuation_byte c3
        \<and> (l \<noteq> 0xF0 \<or> c1 \<ge> 0x90) \<and> (l \<noteq> 0xF4 \<or> c1 < 0x90)
        \<and> is_valid_utf8 r)"
    by (intro is_valid_utf8_four) simp_all
  with wf_four show ?case by (simp del: is_valid_utf8.simps)
qed

lemma valid_imp_well_formed: "is_valid_utf8 bs \<Longrightarrow> well_formed_utf8 bs"
proof (induction bs rule: length_induct)
  case (1 bs)
  show ?case
  proof (cases bs)
    case Nil
    then show ?thesis by (simp add: wf_empty)
  next
    case (Cons c r)
    note bs = Cons
    consider "c \<le> 0x7F" | "\<not> c \<le> 0x7F" "0xC2 \<le> c" "c \<le> 0xDF"
      | "\<not> c \<le> 0x7F" "0xE0 \<le> c" "c \<le> 0xEF" | "\<not> c \<le> 0x7F" "0xF0 \<le> c" "c \<le> 0xF4"
      | "\<not> c \<le> 0x7F" "\<not> (0xC2 \<le> c \<and> c \<le> 0xDF)" "\<not> (0xE0 \<le> c \<and> c \<le> 0xEF)"
          "\<not> (0xF0 \<le> c \<and> c \<le> 0xF4)"
      by blast
    then show ?thesis
    proof cases
      case 1
      with "1.prems" "1.IH" bs show ?thesis by (simp add: wf_single)
    next
      case 2
      then have e: "utf8_extra c = Some 1" by (simp add: utf8_extra_ranges)
      from "1.prems" bs 2 e obtain c1 r' where r: "r = c1 # r'"
        by (cases r) auto
      from "1.prems" have v: "continuation_byte c1" "is_valid_utf8 r'"
        unfolding bs r is_valid_utf8_two[OF 2(2,3)] by simp_all
      from v(2) "1.IH" have "well_formed_utf8 r'" by (simp add: bs r)
      moreover from 2 have "drop_bit 5 c = 0b110" "c \<noteq> 0xC0" "c \<noteq> 0xC1"
        using lead2_range[of c] by (auto simp: lead2_pattern)
      ultimately show ?thesis unfolding bs r using v(1) by (intro wf_two)
    next
      case 3
      then have e: "utf8_extra c = Some 2" by (auto simp add: utf8_extra_ranges word_le_nat_alt)
      from "1.prems" bs 3 e obtain c1 c2 r' where r: "r = c1 # c2 # r'"
        by (cases r; cases "tl r") auto
      from "1.prems" have v: "continuation_byte c1" "continuation_byte c2"
          "c \<noteq> 0xE0 \<or> c1 \<ge> 0xA0" "c \<noteq> 0xED \<or> c1 < 0xA0" "is_valid_utf8 r'"
        unfolding bs r is_valid_utf8_three[OF 3(2,3)] by simp_all
      from v(5) "1.IH" have "well_formed_utf8 r'" by (simp add: bs r)
      moreover from 3 have "drop_bit 4 c = 0b1110" by (simp add: lead3_pattern)
      ultimately show ?thesis unfolding bs r using v by (intro wf_three)
    next
      case 4
      then have e: "utf8_extra c = Some 3" by (auto simp add: utf8_extra_ranges word_le_nat_alt)
      from "1.prems" bs 4 e obtain c1 c2 c3 r' where r: "r = c1 # c2 # c3 # r'"
        by (cases r; cases "tl r"; cases "tl (tl r)") auto
      from "1.prems" have v: "continuation_byte c1" "continuation_byte c2" "continuation_byte c3"
          "c \<noteq> 0xF0 \<or> c1 \<ge> 0x90" "c \<noteq> 0xF4 \<or> c1 < 0x90" "is_valid_utf8 r'"
        unfolding bs r is_valid_utf8_four[OF 4(2,3)] by simp_all
      from v(6) "1.IH" have "well_formed_utf8 r'" by (simp add: bs r)
      moreover from 4 have "drop_bit 3 c = 0b11110" "c \<le> 0xF4"
        using lead4_range[of c] by (auto simp add: lead4_pattern)
      ultimately show ?thesis unfolding bs r using v by (intro wf_four)
    next
      case 5
      then have "utf8_extra c = None" by (simp add: utf8_extra_ranges)
      with 5 "1.prems" bs show ?thesis by simp
    qed
  qed
qed

lemma valid_iff_well_formed: "is_valid_utf8 bs \<longleftrightarrow> well_formed_utf8 bs"
  using valid_imp_well_formed well_formed_imp_valid by blast

text \<open>
  C7.  For every byte span, the UTF-8 validator returns true if and only if the span
  parses as a sequence of well-formed UTF-8 code points (\<open>well_formed_utf8\<close>, the grammar
  of \<section>4.3): a truncated trailing sequence, a lead byte \<open>0xC0\<close>, \<open>0xC1\<close> or above \<open>0xF4\<close>,
  a byte that matches no lead pattern, a missing continuation byte and a second byte
  outside the bounds after \<open>0xE0\<close>, \<open>0xED\<close>, \<open>0xF0\<close>, \<open>0xF4\<close> all make it return false.
\<close>

theorem is_valid_utf8_iff_well_formed:
  "is_valid_utf8 s \<longleftrightarrow> well_formed_utf8 s"
  by (rule valid_iff_well_formed)

theorem is_valid_utf8_iff_well_formed_witness:
  "well_formed_utf8 [0x48, 0xD0, 0xBC, 0xE2, 0x84, 0x96, 0xF0, 0x9F, 0x98, 0x80]
   \<and> well_formed_utf8 [0xE0, 0xA0, 0x80] \<and> \<not> well_formed_utf8 [0xE0, 0x9F, 0x80]
   \<and> well_formed_utf8 [0xED, 0x9F, 0xBF] \<and> \<not> well_formed_utf8 [0xED, 0xA0, 0x80]
   \<and> well_formed_utf8 [0xF0, 0x90, 0x80, 0x80] \<and> \<not> well_formed_utf8 [0xF0, 0x8F, 0x80, 0x80]
   \<and> well_formed_utf8 [0xF4, 0x8F, 0xBF, 0xBF] \<and> \<not> well_formed_utf8 [0xF4, 0x90, 0x80, 0x80]
   \<and> \<not> well_formed_utf8 [0xC0, 0x80] \<and> \<not> well_formed_utf8 [0xC1, 0xBF]
   \<and> \<not> well_formed_utf8 [0xF5, 0x80, 0x80, 0x80] \<and> \<not> well_formed_utf8 [0x80]
   \<and> \<not> well_formed_utf8 [0xE2, 0x84] \<and> \<not> well_formed_utf8 [0xD0, 0x41]"
  unfolding is_valid_utf8_iff_well_formed [symmetric]
  by (simp add: utf8_extra_def)

section \<open>The conversion result is valid UTF-8\<close>


















































text \<open>
  The bytes of an encoded scalar carry the scalar, in the shortest form.
\<close>

lemma lead2_payload: "(k::nat) < 32 \<Longrightarrow> (192 + k) mod 32 = k"
proof -
  assume k: "k < 32"
  have "(192 + k) mod 32 = (k + 32 * 6) mod 32" by (simp add: add.commute)
  also have "\<dots> = k mod 32" by (simp only: mod_mult_self2)
  finally show ?thesis using k by simp
qed

lemma lead3_payload: "(k::nat) < 16 \<Longrightarrow> (224 + k) mod 16 = k"
proof -
  assume k: "k < 16"
  have "(224 + k) mod 16 = (k + 16 * 14) mod 16" by (simp add: add.commute)
  also have "\<dots> = k mod 16" by (simp only: mod_mult_self2)
  finally show ?thesis using k by simp
qed

lemma lead4_payload: "(k::nat) < 8 \<Longrightarrow> (240 + k) mod 8 = k"
proof -
  assume k: "k < 8"
  have "(240 + k) mod 8 = (k + 8 * 30) mod 8" by (simp add: add.commute)
  also have "\<dots> = k mod 8" by (simp only: mod_mult_self2)
  finally show ?thesis using k by simp
qed

lemma continuation_payload: "(128 + (m::nat) mod 64) mod 64 = m mod 64"
proof -
  have "(128 + m mod 64) mod 64 = (m mod 64 + 64 * 2) mod 64" by (simp add: add.commute)
  also have "\<dots> = m mod 64 mod 64" by (simp only: mod_mult_self2)
  finally show ?thesis by simp
qed











section \<open>Further properties of detection and conversion\<close>

text \<open>
  X1.  Empty input is detected as UTF-8 and converted to the name UTF-8 with zero bytes
  of output (\<section>8, scenario 6).
\<close>

theorem empty_input_utf8:
  "DetectEncodingFromBuffer [] = ''UTF-8'' \<and> ConvertBufferToUtf8 [] = (''UTF-8'', [])"
  by (simp add: DetectEncodingFromBuffer_def ConvertBufferToUtf8_def)

lemma detect_bom_names:
  "detect_bom b = Some bi \<Longrightarrow>
     bom_name bi \<in> {''UTF-8'', ''UTF-16LE'', ''UTF-16BE'', ''UTF-32LE'', ''UTF-32BE''}"
  by (auto simp: detect_bom_def split: if_splits)

lemma best_cand_names:
  "snd (foldl (best_cand bytes) (s0, ''WINDOWS-1251'') cands)
     \<in> {''WINDOWS-1251'', ''KOI8-R'', ''ISO-8859-5'', ''MACCYRILLIC''}"
  by (simp add: cands_def best_cand_def Let_def)

text \<open>
  X2.  The detection always returns one of the nine encoding names of \<section>3; there is no
  ``unknown'' outcome.
\<close>

theorem detect_returns_known_name:
  "DetectEncodingFromBuffer bytes \<in>
     {''UTF-8'', ''UTF-16LE'', ''UTF-16BE'', ''UTF-32LE'', ''UTF-32BE'',
      ''WINDOWS-1251'', ''KOI8-R'', ''ISO-8859-5'', ''MACCYRILLIC''}"
proof (cases "detect_bom bytes")
  case None
  with best_cand_names[of bytes "- 1000000000"] show ?thesis
    by (auto simp add: DetectEncodingFromBuffer_def simp del: foldl_Cons)
next
  case (Some bi)
  with detect_bom_names[OF Some] show ?thesis
    by (auto simp add: DetectEncodingFromBuffer_def)
qed

text \<open>
  X3.  The test vector of the repository (\<section>8, scenario 4): the bytes
  \<open>CF F0 E8 E2 E5 F2\<close> are detected as WINDOWS-1251 and converted to the UTF-8 bytes of
  the Russian word for ``hello''.
\<close>

theorem cp1251_test_vector:
  "DetectEncodingFromBuffer [0xCF, 0xF0, 0xE8, 0xE2, 0xE5, 0xF2] = ''WINDOWS-1251''
   \<and> ConvertBufferToUtf8 [0xCF, 0xF0, 0xE8, 0xE2, 0xE5, 0xF2]
       = (''WINDOWS-1251'',
          [0xD0, 0x9F, 0xD1, 0x80, 0xD0, 0xB8, 0xD0, 0xB2, 0xD0, 0xB5, 0xD1, 0x82])"
  by (simp add: DetectEncodingFromBuffer_def ConvertBufferToUtf8_def detect_bom_def
      looks_like_utf32_le_def looks_like_utf32_be_def looks_like_utf16_le_def
      looks_like_utf16_be_def utf8_extra_def cands_def best_cand_def score_u32_text_def
      CP1251_TABLE_def KOI8R_TABLE_def ISO8859_5_TABLE_def MACCYR_TABLE_def
      u32_to_utf8_def append_utf8_def Let_def)

text \<open>
  X4.  For a buffer that begins with the UTF-8 BOM followed by valid UTF-8, the
  conversion reports UTF-8 and returns the remainder; for one that begins with the
  UTF-16LE BOM (not followed by \<open>00 00\<close>), the UTF-16BE BOM or the UTF-32BE BOM, it
  reports the name of the BOM and decodes the remainder under that encoding.  The BOM
  bytes are not part of what is decoded.
\<close>

theorem convert_honours_bom:
  "(is_valid_utf8 rest \<longrightarrow> ConvertBufferToUtf8 (0xEF # 0xBB # 0xBF # rest) = (''UTF-8'', rest))
   \<and> (take 2 rest \<noteq> [0x00, 0x00] \<longrightarrow>
        ConvertBufferToUtf8 (0xFF # 0xFE # rest) =
          (''UTF-16LE'', u32_to_utf8 (decode_utf16 rest False)))
   \<and> ConvertBufferToUtf8 (0xFE # 0xFF # rest) =
        (''UTF-16BE'', u32_to_utf8 (decode_utf16 rest True))
   \<and> ConvertBufferToUtf8 (0x00 # 0x00 # 0xFE # 0xFF # rest) =
        (''UTF-32BE'', u32_to_utf8 (decode_utf32 rest True))"
  by (simp add: detect_bom_def ConvertBufferToUtf8_def)

theorem convert_honours_bom_witness:
  "is_valid_utf8 [0x41, 0x00, 0x42, 0x00]
   \<and> take 2 [0x41, 0x00, 0x42, 0x00 :: u8] \<noteq> [0x00, 0x00]
   \<and> ConvertBufferToUtf8 [0xFF, 0xFE, 0x41, 0x00, 0x42, 0x00] = (''UTF-16LE'', [0x41, 0x42])
   \<and> ConvertBufferToUtf8 [0xEF, 0xBB, 0xBF, 0x41, 0x00, 0x42, 0x00]
        = (''UTF-8'', [0x41, 0x00, 0x42, 0x00])"
  using convert_honours_bom [of "[0x41, 0x00, 0x42, 0x00]"]
  by (simp add: decode_utf16_def unit16_def u32_to_utf8_def append_utf8_def)

lemma value2_bounds:
  "2 \<le> (k::nat) \<Longrightarrow> k \<le> 31 \<Longrightarrow> (m::nat) \<le> 63 \<Longrightarrow> 128 \<le> k * 64 + m \<and> k * 64 + m < 2048"
  by linarith

lemma value3_bounds:
  "(k::nat) \<le> 15 \<Longrightarrow> (m1::nat) \<le> 63 \<Longrightarrow> (m2::nat) \<le> 63 \<Longrightarrow> k \<noteq> 0 \<or> 32 \<le> m1 \<Longrightarrow>
     2048 \<le> k * 4096 + m1 * 64 + m2 \<and> k * 4096 + m1 * 64 + m2 < 65536"
  by linarith

lemma value4_bounds:
  "(k::nat) \<le> 4 \<Longrightarrow> (m1::nat) \<le> 63 \<Longrightarrow> (m2::nat) \<le> 63 \<Longrightarrow> (m3::nat) \<le> 63 \<Longrightarrow>
     k \<noteq> 0 \<or> 16 \<le> m1 \<Longrightarrow> k \<noteq> 4 \<or> m1 < 16 \<Longrightarrow>
     65536 \<le> k * 262144 + m1 * 4096 + m2 * 64 + m3
     \<and> k * 262144 + m1 * 4096 + m2 * 64 + m3 \<le> 1114111"
  by linarith

lemma continuation_payload_nat:
  assumes "continuation_byte c"
  obtains m where "m \<le> 63" "unat c = 128 + m" "unat c mod 64 = m"
proof -
  from assms have r: "128 \<le> unat c" "unat c \<le> 191"
    by (simp_all add: continuation_range word_le_nat_alt)
  define m where "m = unat c - 128"
  with r have m: "m \<le> 63" "unat c = 128 + m" by simp_all
  from m(1) continuation_payload[of m] have "unat c mod 64 = m" unfolding m(2) by simp
  with m show ?thesis by (rule that)
qed

lemma valid_two_lead:
  assumes "0xC0 \<le> l" "is_valid_utf8 [l, c1]"
  shows "0xC2 \<le> l \<and> l \<le> 0xDF \<and> continuation_byte c1"
proof -
  from assms(1) have n: "\<not> l \<le> 0x7F" by (simp add: word_le_nat_alt)
  with assms(2) have "0xC2 \<le> l \<and> l \<le> 0xDF"
    by (auto simp: utf8_extra_ranges split: if_splits)
  moreover from this assms(2) have "continuation_byte c1"
    by (simp add: is_valid_utf8_two del: is_valid_utf8.simps)
  ultimately show ?thesis by blast
qed

lemma two_byte_value_bounds:
  assumes "0xC0 \<le> l" "is_valid_utf8 [l, c1]"
  shows "2 ^ 7 \<le> utf8_value [l, c1] \<and> utf8_value [l, c1] < 2 ^ 11"
proof -
  from valid_two_lead[OF assms] have l: "194 \<le> unat l" "unat l \<le> 223" and c: "continuation_byte c1"
    by (simp_all add: word_le_nat_alt)
  define k where "k = unat l - 192"
  with l have k: "2 \<le> k" "k \<le> 31" "unat l = 192 + k" by simp_all
  from k(2) have "k < 32" by simp
  then have lk: "unat l mod 32 = k" unfolding k(3) by (rule lead2_payload)
  from c obtain m where m: "m \<le> 63" "unat c1 mod 64 = m" by (rule continuation_payload_nat)
  have "utf8_value [l, c1] = k * 64 + m" by (simp add: lk m(2))
  with value2_bounds[OF k(1,2) m(1)] show ?thesis by simp
qed

lemma valid_three_lead:
  assumes "0xE0 \<le> l" "is_valid_utf8 [l, c1, c2]"
  shows "l \<le> 0xEF \<and> continuation_byte c1 \<and> continuation_byte c2
     \<and> (l \<noteq> 0xE0 \<or> c1 \<ge> 0xA0) \<and> (l \<noteq> 0xED \<or> c1 < 0xA0)"
proof -
  from assms(1) have n: "\<not> l \<le> 0x7F" "\<not> l \<le> 0xDF" by (simp_all add: word_le_nat_alt)
  with assms have r: "l \<le> 0xEF"
    by (auto simp: utf8_extra_ranges split: if_splits)
  with assms(1) assms(2) show ?thesis
    by (simp add: is_valid_utf8_three del: is_valid_utf8.simps)
qed

lemma three_byte_value_bounds:
  assumes "0xE0 \<le> l" "is_valid_utf8 [l, c1, c2]"
  shows "2 ^ 11 \<le> utf8_value [l, c1, c2] \<and> utf8_value [l, c1, c2] < 2 ^ 16"
proof -
  from valid_three_lead[OF assms] assms(1)
  have l: "224 \<le> unat l" "unat l \<le> 239" and c: "continuation_byte c1" "continuation_byte c2"
    and e: "l \<noteq> 0xE0 \<or> c1 \<ge> 0xA0"
    by (simp_all add: word_le_nat_alt)
  define k where "k = unat l - 224"
  with l have k: "k \<le> 15" "unat l = 224 + k" by simp_all
  from k(1) have "k < 16" by simp
  then have lk: "unat l mod 16 = k" unfolding k(2) by (rule lead3_payload)
  from c(1) obtain m1 where m1: "m1 \<le> 63" "unat c1 = 128 + m1" "unat c1 mod 64 = m1"
    by (rule continuation_payload_nat)
  from c(2) obtain m2 where m2: "m2 \<le> 63" "unat c2 mod 64 = m2"
    by (rule continuation_payload_nat)
  from e have "unat l \<noteq> 224 \<or> 160 \<le> unat c1"
    by (simp add: word_le_nat_alt word_unat_eq_iff)
  then have e': "k \<noteq> 0 \<or> 32 \<le> m1" unfolding k(2) m1(2) by simp
  have "utf8_value [l, c1, c2] = k * 4096 + m1 * 64 + m2" by (simp add: lk m1(3) m2(2))
  with value3_bounds[OF k(1) m1(1) m2(1) e'] show ?thesis by simp
qed

lemma valid_four_lead:
  assumes "0xF0 \<le> l" "is_valid_utf8 [l, c1, c2, c3]"
  shows "l \<le> 0xF4 \<and> continuation_byte c1 \<and> continuation_byte c2 \<and> continuation_byte c3
     \<and> (l \<noteq> 0xF0 \<or> c1 \<ge> 0x90) \<and> (l \<noteq> 0xF4 \<or> c1 < 0x90)"
proof -
  from assms(1) have n: "\<not> l \<le> 0x7F" "\<not> l \<le> 0xDF" "\<not> l \<le> 0xEF"
    by (simp_all add: word_le_nat_alt)
  with assms have r: "l \<le> 0xF4"
    by (auto simp: utf8_extra_ranges split: if_splits)
  with assms(1) assms(2) show ?thesis
    by (simp add: is_valid_utf8_four del: is_valid_utf8.simps)
qed

lemma four_byte_value_bounds:
  assumes "0xF0 \<le> l" "is_valid_utf8 [l, c1, c2, c3]"
  shows "2 ^ 16 \<le> utf8_value [l, c1, c2, c3] \<and> utf8_value [l, c1, c2, c3] \<le> 0x10FFFF"
proof -
  from valid_four_lead[OF assms] assms(1)
  have l: "240 \<le> unat l" "unat l \<le> 244"
    and c: "continuation_byte c1" "continuation_byte c2" "continuation_byte c3"
    and e: "l \<noteq> 0xF0 \<or> c1 \<ge> 0x90" "l \<noteq> 0xF4 \<or> c1 < 0x90"
    by (simp_all add: word_le_nat_alt)
  define k where "k = unat l - 240"
  with l have k: "k \<le> 4" "unat l = 240 + k" by simp_all
  from k(1) have "k < 8" by simp
  then have lk: "unat l mod 8 = k" unfolding k(2) by (rule lead4_payload)
  from c(1) obtain m1 where m1: "m1 \<le> 63" "unat c1 = 128 + m1" "unat c1 mod 64 = m1"
    by (rule continuation_payload_nat)
  from c(2) obtain m2 where m2: "m2 \<le> 63" "unat c2 mod 64 = m2"
    by (rule continuation_payload_nat)
  from c(3) obtain m3 where m3: "m3 \<le> 63" "unat c3 mod 64 = m3"
    by (rule continuation_payload_nat)
  from e have "unat l \<noteq> 240 \<or> 144 \<le> unat c1" "unat l \<noteq> 244 \<or> unat c1 < 144"
    by (simp_all add: word_le_nat_alt word_less_nat_alt word_unat_eq_iff)
  then have e': "k \<noteq> 0 \<or> 16 \<le> m1" "k \<noteq> 4 \<or> m1 < 16" unfolding k(2) m1(2) by simp_all
  have "utf8_value [l, c1, c2, c3] = k * 262144 + m1 * 4096 + m2 * 64 + m3"
    by (simp add: lk m1(3) m2(2) m3(2))
  with value4_bounds[OF k(1) m1(1) m2(1) m3(1) e'] show ?thesis by simp
qed

text \<open>
  X5.  The validator accepts no overlong form: a two-, three- or four-byte code point
  that it accepts carries a scalar too large for the next shorter form, and at most
  \<open>0x10FFFF\<close>.
\<close>

theorem validator_rejects_overlong_forms:
  "(0xC0 \<le> l \<and> is_valid_utf8 [l, c1] \<longrightarrow>
      2 ^ 7 \<le> utf8_value [l, c1] \<and> utf8_value [l, c1] < 2 ^ 11)
   \<and> (0xE0 \<le> l \<and> is_valid_utf8 [l, c1, c2] \<longrightarrow>
      2 ^ 11 \<le> utf8_value [l, c1, c2] \<and> utf8_value [l, c1, c2] < 2 ^ 16)
   \<and> (0xF0 \<le> l \<and> is_valid_utf8 [l, c1, c2, c3] \<longrightarrow>
      2 ^ 16 \<le> utf8_value [l, c1, c2, c3] \<and> utf8_value [l, c1, c2, c3] \<le> 0x10FFFF)"
  using two_byte_value_bounds three_byte_value_bounds four_byte_value_bounds by blast

theorem validator_rejects_overlong_forms_witness:
  "0xE0 \<le> (0xE2 :: u8) \<and> is_valid_utf8 [0xE2, 0x82, 0xAC]
   \<and> (2 :: nat) ^ 11 \<le> utf8_value [0xE2, 0x82, 0xAC]
   \<and> utf8_value [0xE2, 0x82, 0xAC] < 2 ^ 16
   \<and> utf8_value [0xE2, 0x82, 0xAC] = 0x20AC"
proof -
  have l: "0xE0 \<le> (0xE2 :: u8)" by simp
  have v: "is_valid_utf8 [0xE2, 0x82, 0xAC]" by (simp add: utf8_extra_def)
  have e: "utf8_value [0xE2, 0x82, 0xAC] = 0x20AC" by simp
  from validator_rejects_overlong_forms [of "0xE2" "0x82" "0xAC" "0x00"] l v
  have "(2 :: nat) ^ 11 \<le> utf8_value [0xE2, 0x82, 0xAC] \<and> utf8_value [0xE2, 0x82, 0xAC] < 2 ^ 16"
    by blast
  with l v e show ?thesis by blast
qed

end
